theory Spec2Isabelle
  imports Main "HOL-Library.AList"
begin

section \<open>The Go library functions the server calls\<close>

text \<open>
  Go strings are byte sequences; \<open>string\<close> (a list of 8-bit \<open>char\<close>s) is the same data,
  and \<open>length\<close> is Go's \<open>len\<close>.  The functions below are the library functions of
  \<^verbatim>\<open>strings\<close>, \<^verbatim>\<open>unicode\<close> and \<^verbatim>\<open>regexp\<close> at the arguments \<^verbatim>\<open>server.go\<close> gives them.
\<close>

text \<open>
  \<^verbatim>\<open>strings.Trim(s, cutset)\<close> for a cutset of ASCII characters: every leading and every
  trailing byte that is in the cutset is removed.  The server only ever passes the
  cutset \<^verbatim>\<open>" "\<close>, so a tab, a carriage return or any other blank is kept.
\<close>

definition Trim :: "string \<Rightarrow> string \<Rightarrow> string" where
  "Trim s cutset =
     rev (dropWhile (\<lambda>c. c \<in> set cutset) (rev (dropWhile (\<lambda>c. c \<in> set cutset) s)))"

text \<open>
  \<^verbatim>\<open>strings.genSplit\<close> for a one-byte separator: at most \<open>n\<close> pieces, the last one the
  unsplit remainder.  \<^verbatim>\<open>SplitN(s, sep, n)\<close> calls it with \<open>n\<close>, and \<^verbatim>\<open>Split(s, sep)\<close>
  with the number of separators plus one.
\<close>

fun genSplit :: "char \<Rightarrow> nat \<Rightarrow> string \<Rightarrow> string list" where
  "genSplit sep 0 s = []"
| "genSplit sep (Suc 0) s = [s]"
| "genSplit sep (Suc (Suc n)) s =
     (if sep \<in> set s
      then takeWhile (\<lambda>c. c \<noteq> sep) s
             # genSplit sep (Suc n) (tl (dropWhile (\<lambda>c. c \<noteq> sep) s))
      else [s])"

definition SplitN :: "string \<Rightarrow> char \<Rightarrow> nat \<Rightarrow> string list" where
  "SplitN s sep n = genSplit sep n s"

definition Split :: "string \<Rightarrow> char \<Rightarrow> string list" where
  "Split s sep = genSplit sep (count_list s sep + 1) s"

text \<open>
  \<^verbatim>\<open>unicode.IsLetter(rune(b))\<close> for a byte \<open>b\<close>: the conversion reads the byte as the code
  point of the same number, so the test is the one of the Latin-1 table: the ASCII
  letters, U+00AA, U+00B5, U+00BA and U+00C0 to U+00FF without U+00D7 and U+00F7.
\<close>

definition rune :: "char \<Rightarrow> nat" where
  "rune b = of_char b"

definition IsLetter :: "nat \<Rightarrow> bool" where
  "IsLetter r =
     ((65 \<le> r \<and> r \<le> 90) \<or> (97 \<le> r \<and> r \<le> 122) \<or> r = 170 \<or> r = 181 \<or> r = 186
      \<or> (192 \<le> r \<and> r \<le> 214) \<or> (216 \<le> r \<and> r \<le> 246) \<or> (248 \<le> r \<and> r \<le> 255))"

text \<open>
  \<^verbatim>\<open>validNicknamePattern.MatchString\<close>, the pattern being \<^verbatim>\<open>^[a-zA-Z0-9_]+$\<close>: Go's \<^verbatim>\<open>$\<close>
  matches at the end of the text only, so the string is non-empty and every byte is
  in the class.
\<close>

definition nicknameClass :: "char \<Rightarrow> bool" where
  "nicknameClass c =
     (let r = rune c
      in (97 \<le> r \<and> r \<le> 122) \<or> (65 \<le> r \<and> r \<le> 90) \<or> (48 \<le> r \<and> r \<le> 57) \<or> r = 95)"

definition validNicknamePattern_MatchString :: "string \<Rightarrow> bool" where
  "validNicknamePattern_MatchString s = (s \<noteq> [] \<and> list_all nicknameClass s)"

section \<open>The server state and its output\<close>

text \<open>
  \<^verbatim>\<open>ChatServer.users\<close> is a Go map from connections to nicknames.  It is kept as an
  association list whose order stands for the order in which \<^verbatim>\<open>range\<close> visits the
  entries; the theorems hold for every order.  A connection is an opaque value compared
  by equality only.

  The mutex is not a field here: each handler below is one transition.  That is what
  the lock makes of \<^verbatim>\<open>handleListCommand\<close>, \<^verbatim>\<open>handleNicknameCommand\<close>, the two send
  functions and the final \<^verbatim>\<open>delete\<close>, which hold it for their whole body.  The read of
  \<^verbatim>\<open>server.users[conn]\<close> in \<^verbatim>\<open>handleMessageCommand\<close> and the departure broadcast of
  \<^verbatim>\<open>handleClientConnection\<close> run outside the lock; what another goroutine may do in
  between is not part of this model.
\<close>

record 'c ChatServer =
  users :: "('c \<times> string) list"

text \<open>One \<^verbatim>\<open>fmt.Fprint\<close> call: the connection written to and the bytes written.\<close>

type_synonym 'c written = "'c \<times> string"

datatype panic = IndexOutOfRange

type_synonym BroadcastType = int

definition UserJoinsServer :: BroadcastType where
  "UserJoinsServer = 0"

definition UserChangesNickname :: BroadcastType where
  "UserChangesNickname = 1"

definition UserLeavesServer :: BroadcastType where
  "UserLeavesServer = 2"

definition LIST :: string where
  "LIST = ''/LIST''"

definition NICK :: string where
  "NICK = ''/NICK''"

definition MSG :: string where
  "MSG = ''/MSG''"

definition newline :: string where
  "newline = [CHR 0x0A]"

definition Fprintln :: "'c \<Rightarrow> string \<Rightarrow> 'c written" where
  "Fprintln conn s = (conn, s @ newline)"

text \<open>\<^verbatim>\<open>server.users[conn]\<close> read as a value: the empty string when there is no entry.\<close>

definition usersAt :: "'c ChatServer \<Rightarrow> 'c \<Rightarrow> string" where
  "usersAt server conn = (case map_of (users server) conn of None \<Rightarrow> [] | Some n \<Rightarrow> n)"

section \<open>validateNickname\<close>

definition validateNickname :: "string \<Rightarrow> bool \<times> string" where
  "validateNickname nickname =
     (let sanitizedNickname = Trim nickname '' ''
      in if length sanitizedNickname < 1 \<or> length sanitizedNickname > 10
         then (False, ''Nickname must be between 1 and 10 characters'')
         else if \<not> IsLetter (rune (sanitizedNickname ! 0))
         then (False, ''Nickname must start with a letter'')
         else if \<not> validNicknamePattern_MatchString sanitizedNickname
         then (False, ''Nickname can contain only letters, numbers, and underscores'')
         else (True, []))"

section \<open>broadcastMsg and the chat fan-out\<close>

text \<open>\<^verbatim>\<open>components[i]\<close> of the variadic argument: Go panics when the index is out of range.\<close>

definition component :: "string list \<Rightarrow> nat \<Rightarrow> panic + string" where
  "component components i =
     (if i < length components then Inr (components ! i) else Inl IndexOutOfRange)"

text \<open>The message of a broadcast; \<open>None\<close> is the \<^verbatim>\<open>default\<close> branch, which only logs.\<close>

definition broadcastText :: "BroadcastType \<Rightarrow> string list \<Rightarrow> panic + string option" where
  "broadcastText broadcastType components =
     (if broadcastType = UserJoinsServer then
        (case component components 0 of
           Inl p \<Rightarrow> Inl p
         | Inr c0 \<Rightarrow> Inr (Some (c0 @ '' joined the chat'')))
      else if broadcastType = UserLeavesServer then
        (case component components 0 of
           Inl p \<Rightarrow> Inl p
         | Inr c0 \<Rightarrow> Inr (Some (c0 @ '' left the chat'')))
      else if broadcastType = UserChangesNickname then
        (case component components 0 of
           Inl p \<Rightarrow> Inl p
         | Inr c0 \<Rightarrow>
             (case component components 1 of
                Inl p \<Rightarrow> Inl p
              | Inr c1 \<Rightarrow> Inr (Some (c0 @ '' changed nickname to '' @ c1))))
      else Inr None)"

definition broadcastMsg ::
  "'c ChatServer \<Rightarrow> BroadcastType \<Rightarrow> 'c \<Rightarrow> string list \<Rightarrow> panic + 'c written list" where
  "broadcastMsg server broadcastType excludeConn components =
     (case broadcastText broadcastType components of
        Inl p \<Rightarrow> Inl p
      | Inr None \<Rightarrow> Inr []
      | Inr (Some message) \<Rightarrow>
          Inr (map (\<lambda>conn. Fprintln conn message)
                 (filter (\<lambda>conn. conn \<noteq> excludeConn) (map fst (users server)))))"

definition said :: "string \<Rightarrow> string \<Rightarrow> string" where
  "said senderNickname message = senderNickname @ '' said: '' @ message @ newline"

definition sendToAllUsers :: "'c ChatServer \<Rightarrow> 'c \<Rightarrow> string \<Rightarrow> string \<Rightarrow> 'c written list" where
  "sendToAllUsers server conn senderNickname message =
     map (\<lambda>connection. (connection, said senderNickname message))
       (filter (\<lambda>connection. connection \<noteq> conn) (map fst (users server)))"

definition sendToSpecificUsers ::
  "'c ChatServer \<Rightarrow> 'c \<Rightarrow> string \<Rightarrow> string list \<Rightarrow> string \<Rightarrow> 'c written list" where
  "sendToSpecificUsers server conn senderNickname recipients message =
     concat (map (\<lambda>receiver.
         map (\<lambda>(receiverConnection, receiverNickname).
                (receiverConnection, said senderNickname message))
           (filter (\<lambda>(receiverConnection, receiverNickname).
                      receiverNickname = receiver \<and> conn \<noteq> receiverConnection)
              (users server)))
       recipients)"

section \<open>The command handlers\<close>

definition handleListCommand :: "'c ChatServer \<Rightarrow> 'c \<Rightarrow> 'c written list" where
  "handleListCommand server conn =
     (conn, ''Current users: '')
       # map (\<lambda>(c, nickname). (conn, nickname @ '' '')) (users server)
       @ [(conn, newline)]"

text \<open>
  The scan of \<^verbatim>\<open>handleNicknameCommand\<close>: the first entry whose nickname is the desired
  one decides the reply and ends the handler; \<open>None\<close> when the loop runs to its end.
\<close>

fun nicknameScan :: "('c \<times> string) list \<Rightarrow> 'c \<Rightarrow> string \<Rightarrow> 'c written option" where
  "nicknameScan [] conn desiredNickname = None"
| "nicknameScan ((userConn, userNickname) # rest) conn desiredNickname =
     (if userNickname = desiredNickname
      then (if userConn = conn
            then Some (conn, ''You're already registered as '' @ desiredNickname @ newline)
            else Some (conn, desiredNickname @ '' already registered'' @ newline))
      else nicknameScan rest conn desiredNickname)"

definition handleNicknameCommand ::
  "'c ChatServer \<Rightarrow> 'c \<Rightarrow> string \<Rightarrow> panic + ('c ChatServer \<times> 'c written list)" where
  "handleNicknameCommand server conn desiredNickname =
     (case validateNickname desiredNickname of
        (validNickname, msg) \<Rightarrow>
          if \<not> validNickname then Inr (server, [Fprintln conn msg])
          else
            (case nicknameScan (users server) conn desiredNickname of
               Some w \<Rightarrow> Inr (server, [w])
             | None \<Rightarrow>
                 (case map_of (users server) conn of
                    Some currentNickname \<Rightarrow>
                      (case broadcastMsg server UserChangesNickname conn
                              [currentNickname, desiredNickname] of
                         Inl p \<Rightarrow> Inl p
                       | Inr ws \<Rightarrow>
                           Inr (server\<lparr>users := AList.update conn desiredNickname (users server)\<rparr>,
                                (conn, ''You changed your nickname from '' @ currentNickname
                                         @ '' to '' @ desiredNickname @ newline) # ws))
                  | None \<Rightarrow>
                      (case broadcastMsg server UserJoinsServer conn [desiredNickname] of
                         Inl p \<Rightarrow> Inl p
                       | Inr ws \<Rightarrow>
                           Inr (server\<lparr>users := AList.update conn desiredNickname (users server)\<rparr>,
                                (conn, ''Nickname registered as '' @ desiredNickname @ newline)
                                  # ws)))))"

definition handleMessageCommand ::
  "'c ChatServer \<Rightarrow> 'c \<Rightarrow> string \<Rightarrow> string \<Rightarrow> 'c written list" where
  "handleMessageCommand server conn recipients message =
     (let parsedRecipients = Split recipients (CHR '','');
          senderNickname = usersAt server conn
      in if senderNickname = []
         then [Fprintln conn ''You must register a nickname before you can send a message'']
         else if length parsedRecipients = 1 \<and> parsedRecipients ! 0 = ''*''
         then sendToAllUsers server conn senderNickname message
         else sendToSpecificUsers server conn senderNickname parsedRecipients message)"

definition handleUserCommands ::
  "'c ChatServer \<Rightarrow> string \<Rightarrow> 'c \<Rightarrow> panic + ('c ChatServer \<times> 'c written list)" where
  "handleUserCommands server userCommand conn =
     (let args = SplitN userCommand (CHR '' '') 3
      in if length args \<ge> 1 \<and> args ! 0 = LIST
         then Inr (server, handleListCommand server conn)
         else if length args \<ge> 2 \<and> args ! 0 = NICK
         then handleNicknameCommand server conn (args ! 1)
         else if length args \<ge> 3 \<and> args ! 0 = MSG
         then Inr (server, handleMessageCommand server conn (args ! 1) (args ! 2))
         else Inr (server, [Fprintln conn ''Invalid command'']))"

section \<open>handleClientConnection\<close>

text \<open>
  One turn of the scanner loop: the line read is trimmed of spaces and dispatched.
\<close>

definition scanLine ::
  "'c ChatServer \<Rightarrow> 'c \<Rightarrow> string \<Rightarrow> panic + ('c ChatServer \<times> 'c written list)" where
  "scanLine server conn text =
     (let sanitizedUserCommand = Trim text '' ''
      in handleUserCommands server sanitizedUserCommand conn)"

text \<open>
  What follows the loop.  \<open>err\<close> says that \<^verbatim>\<open>scanner.Err()\<close> is not nil: then the error
  is logged and nothing is broadcast; otherwise \<^verbatim>\<open>UserLeavesServer\<close> is broadcast with
  \<^verbatim>\<open>server.users[conn]\<close>, whatever it is.  The entry is deleted on both paths.
\<close>

definition sessionEnd ::
  "'c ChatServer \<Rightarrow> 'c \<Rightarrow> bool \<Rightarrow> panic + ('c ChatServer \<times> 'c written list)" where
  "sessionEnd server conn err =
     (case (if err then Inr []
            else broadcastMsg server UserLeavesServer conn [usersAt server conn]) of
        Inl p \<Rightarrow> Inl p
      | Inr ws \<Rightarrow> Inr (server\<lparr>users := AList.delete conn (users server)\<rparr>, ws))"

text \<open>The handler of one connection with nothing else running: its lines, then its end.\<close>

fun scanLoop ::
  "'c ChatServer \<Rightarrow> 'c \<Rightarrow> string list \<Rightarrow> panic + ('c ChatServer \<times> 'c written list)" where
  "scanLoop server conn [] = Inr (server, [])"
| "scanLoop server conn (text # rest) =
     (case scanLine server conn text of
        Inl p \<Rightarrow> Inl p
      | Inr (server', ws) \<Rightarrow>
          (case scanLoop server' conn rest of
             Inl p \<Rightarrow> Inl p
           | Inr (server'', ws') \<Rightarrow> Inr (server'', ws @ ws')))"

definition handleClientConnection ::
  "'c ChatServer \<Rightarrow> 'c \<Rightarrow> string list \<Rightarrow> bool \<Rightarrow> panic + ('c ChatServer \<times> 'c written list)" where
  "handleClientConnection server conn lines err =
     (case scanLoop server conn lines of
        Inl p \<Rightarrow> Inl p
      | Inr (server', ws) \<Rightarrow>
          (case sessionEnd server' conn err of
             Inl p \<Rightarrow> Inl p
           | Inr (server'', ws') \<Rightarrow> Inr (server'', ws @ ws')))"

section \<open>The server as a transition system\<close>

text \<open>
  The goroutines of the connections interleave.  With every handler taken as one
  step, a run of the server is a sequence of events: a connection delivers a line, or
  a connection's scanner stops (cleanly or with an error).  \<open>main\<close> starts with the
  empty map.
\<close>

datatype 'c event = Line 'c string | Stop 'c bool

definition main_server :: "'c ChatServer" where
  "main_server = \<lparr>users = []\<rparr>"

fun step :: "'c ChatServer \<Rightarrow> 'c event \<Rightarrow> panic + ('c ChatServer \<times> 'c written list)" where
  "step server (Line conn text) = scanLine server conn text"
| "step server (Stop conn err) = sessionEnd server conn err"

fun run :: "'c ChatServer \<Rightarrow> 'c event list \<Rightarrow> panic + ('c ChatServer \<times> 'c written list)" where
  "run server [] = Inr (server, [])"
| "run server (e # es) =
     (case step server e of
        Inl p \<Rightarrow> Inl p
      | Inr (server', ws) \<Rightarrow>
          (case run server' es of
             Inl p \<Rightarrow> Inl p
           | Inr (server'', ws') \<Rightarrow> Inr (server'', ws @ ws')))"

section \<open>The properties the theorems speak about\<close>

text \<open>
  The nickname rules in the words of the data model: one to ten bytes, the first an
  ASCII letter, all of them letters, digits or underscores.
\<close>

definition isAsciiLetter :: "char \<Rightarrow> bool" where
  "isAsciiLetter c = (let r = rune c in (65 \<le> r \<and> r \<le> 90) \<or> (97 \<le> r \<and> r \<le> 122))"

definition nicknameRules :: "string \<Rightarrow> bool" where
  "nicknameRules t =
     (1 \<le> length t \<and> length t \<le> 10
      \<and> (case t of [] \<Rightarrow> False | c # cs \<Rightarrow> isAsciiLetter c)
      \<and> list_all nicknameClass t)"

text \<open>
  The invariant of the registry: it is a map (no connection twice), no nickname is
  held twice, and every nickname held obeys the rules.
\<close>

definition registryInv :: "'c ChatServer \<Rightarrow> bool" where
  "registryInv server =
     (distinct (map fst (users server)) \<and> distinct (map snd (users server))
      \<and> list_all nicknameRules (map snd (users server)))"

text \<open>
  Trimming in the words of the specification, "trim surrounding whitespace": the
  ASCII blanks (tab, line feed, vertical tab, form feed, carriage return, space) are
  removed at both ends.  It is not what the server calls; it is here to be compared
  with \<open>Trim\<close> at the cutset \<^verbatim>\<open>" "\<close>.
\<close>

definition spec_isWhitespace :: "char \<Rightarrow> bool" where
  "spec_isWhitespace c = (c \<in> set [CHR 0x09, CHR 0x0A, CHR 0x0B, CHR 0x0C, CHR 0x0D, CHR 0x20])"

definition spec_trimWhitespace :: "string \<Rightarrow> string" where
  "spec_trimWhitespace s = rev (dropWhile spec_isWhitespace (rev (dropWhile spec_isWhitespace s)))"

section \<open>Facts about the library functions\<close>

lemma dropWhile_none: "(\<forall>x\<in>set s. \<not> P x) \<Longrightarrow> dropWhile P s = s"
  by (cases s) auto

lemma Trim_no_cut: "\<forall>x\<in>set s. x \<notin> set cutset \<Longrightarrow> Trim s cutset = s"
  by (simp add: Trim_def dropWhile_none)

lemma genSplit_no_sep: "sep \<notin> set s \<Longrightarrow> genSplit sep (Suc n) s = [s]"
  by (cases n) simp_all

lemma takeWhile_upto_sep: "sep \<notin> set a \<Longrightarrow> takeWhile (\<lambda>c. c \<noteq> sep) (a @ sep # rest) = a"
  by (induction a) auto

lemma dropWhile_upto_sep: "sep \<notin> set a \<Longrightarrow> dropWhile (\<lambda>c. c \<noteq> sep) (a @ sep # rest) = sep # rest"
  by (induction a) auto

lemma genSplit_cons:
  "sep \<notin> set a \<Longrightarrow> genSplit sep (Suc (Suc n)) (a @ sep # rest) = a # genSplit sep (Suc n) rest"
  by (simp add: takeWhile_upto_sep dropWhile_upto_sep)

lemma takeWhile_no_sep: "sep \<notin> set (takeWhile (\<lambda>c. c \<noteq> sep) s)"
  by (induction s) auto

lemma genSplit3_snd_no_sep:
  "2 \<le> length (genSplit sep 3 s) \<Longrightarrow> sep \<notin> set (genSplit sep 3 s ! 1)"
  by (simp add: numeral_3_eq_3 takeWhile_no_sep split: if_splits)

lemma genSplit_length_ge2: "sep \<in> set s \<Longrightarrow> 2 \<le> length (genSplit sep (Suc (Suc n)) s)"
  by (cases n) simp_all

lemma Split_star: "(length (Split r sep) = 1 \<and> Split r sep ! 0 = x) \<longleftrightarrow> (r = x \<and> sep \<notin> set r)"
proof (cases "sep \<in> set r")
  case True
  then have "count_list r sep \<noteq> 0" by (simp add: count_list_0_iff)
  then obtain k where "count_list r sep = Suc k" by (cases "count_list r sep") auto
  then have "2 \<le> length (Split r sep)"
    using genSplit_length_ge2[OF True, of k] by (simp add: Split_def del: genSplit.simps)
  with True show ?thesis by auto
next
  case False
  then show ?thesis by (auto simp add: Split_def count_list_0_iff genSplit_no_sep)
qed

lemma SplitN_NICK: "CHR '' '' \<notin> set n \<Longrightarrow> SplitN (''/NICK '' @ n) (CHR '' '') 3 = [''/NICK'', n]"
  using genSplit_cons[of "CHR '' ''" "''/NICK''" "Suc 0" n]
  by (simp add: SplitN_def numeral_3_eq_3 genSplit_no_sep)

lemma SplitN_MSG: "CHR '' '' \<notin> set r \<Longrightarrow> SplitN (''/MSG '' @ r @ '' '' @ m) (CHR '' '') 3 = [''/MSG'', r, m]"
  using genSplit_cons[of "CHR '' ''" "''/MSG''" "Suc 0" "r @ '' '' @ m"] genSplit_cons[of "CHR '' ''" r 0 m]
  by (simp add: SplitN_def numeral_3_eq_3)

lemma Trim_ends:
  assumes "s \<noteq> []" and "hd s \<notin> set cutset" and "last s \<notin> set cutset"
  shows "Trim s cutset = s"
proof -
  from assms have 1: "dropWhile (\<lambda>c. c \<in> set cutset) s = s" by (cases s) auto
  from assms have "rev s \<noteq> []" "hd (rev s) \<notin> set cutset" by (auto simp: hd_rev)
  then have 2: "dropWhile (\<lambda>c. c \<in> set cutset) (rev s) = rev s" by (cases "rev s") auto
  show ?thesis by (simp add: Trim_def 1 2)
qed

section \<open>Facts about validation and the scan\<close>

lemma validateNickname_fst:
  "fst (validateNickname n) =
     (let t = Trim n '' ''
      in 1 \<le> length t \<and> length t \<le> 10 \<and> IsLetter (rune (t ! 0)) \<and> list_all nicknameClass t)"
  by (auto simp: validateNickname_def Let_def validNicknamePattern_MatchString_def Suc_le_eq)

lemma class_letter: "nicknameClass c \<Longrightarrow> IsLetter (rune c) = isAsciiLetter c"
  by (auto simp: nicknameClass_def IsLetter_def isAsciiLetter_def Let_def)

lemma validateNickname_rules: "fst (validateNickname n) = nicknameRules (Trim n '' '')"
proof (cases "Trim n '' ''")
  case Nil
  then show ?thesis by (simp add: validateNickname_fst nicknameRules_def)
next
  case (Cons c cs)
  then show ?thesis
    using class_letter[of c] by (auto simp: validateNickname_fst nicknameRules_def Let_def)
qed

text \<open>
  The letter test looks at the first byte, not at the first character.  The Hebrew
  letter alef is \<^verbatim>\<open>D7 90\<close> in UTF-8, and U+00D7 is the multiplication sign: the reason
  given is the one for a first character that is no letter.  The euro sign is
  \<^verbatim>\<open>E2 82 AC\<close>, and U+00E2 is a letter: the candidate passes the letter test and is
  refused by the pattern.
\<close>

lemma validateNickname_first_byte:
  "validateNickname [CHR 0xD7, CHR 0x90, CHR ''b''] = (False, ''Nickname must start with a letter'')"
  "validateNickname [CHR 0xE2, CHR 0x82, CHR 0xAC, CHR ''b'']
     = (False, ''Nickname can contain only letters, numbers, and underscores'')"
  by code_simp+

lemma space_not_class: "\<not> nicknameClass (CHR '' '')"
  by (simp add: nicknameClass_def rune_def)

lemma nicknameRules_no_space: "nicknameRules t \<Longrightarrow> CHR '' '' \<notin> set t"
  using space_not_class by (auto simp: nicknameRules_def list_all_iff)

lemma Trim_space_id: "CHR '' '' \<notin> set s \<Longrightarrow> Trim s '' '' = s"
  by (rule Trim_no_cut) auto

lemma validateNickname_no_space:
  "CHR '' '' \<notin> set d \<Longrightarrow> fst (validateNickname d) = nicknameRules d"
  by (simp add: validateNickname_rules Trim_space_id)

lemma validateNickname_stored: "nicknameRules n \<Longrightarrow> fst (validateNickname n)"
  by (simp add: validateNickname_no_space nicknameRules_no_space)

lemma nicknameRules_nonempty: "nicknameRules n \<Longrightarrow> n \<noteq> []"
  by (auto simp: nicknameRules_def)

lemma nicknameScan_None: "nicknameScan us conn d = None \<longleftrightarrow> d \<notin> snd ` set us"
  by (induction us conn d rule: nicknameScan.induct) auto

lemma nicknameScan_Some:
  "distinct (map fst us) \<Longrightarrow> distinct (map snd us) \<Longrightarrow> d \<in> snd ` set us \<Longrightarrow>
   nicknameScan us conn d =
     Some (conn, if map_of us conn = Some d
                 then ''You're already registered as '' @ d @ newline
                 else d @ '' already registered'' @ newline)"
proof (induction us conn d rule: nicknameScan.induct)
  case (1 conn d)
  then show ?case by simp
next
  case (2 userConn userNickname rest conn d)
  show ?case
  proof (cases "userNickname = d")
    case True
    with 2 show ?thesis by (force simp: image_iff dest: map_of_SomeD)
  next
    case False
    with 2 show ?thesis by (auto simp: image_iff)
  qed
qed

lemma update_entries: "(a, b) \<in> set (AList.update k d us) \<Longrightarrow> b = d \<or> (a, b) \<in> set us"
  by (induction us) (auto split: if_splits)

lemma update_values_distinct:
  "distinct (map snd us) \<Longrightarrow> d \<notin> snd ` set us \<Longrightarrow> distinct (map snd (AList.update k d us))"
proof (induction us)
  case Nil
  then show ?case by simp
next
  case (Cons p us)
  then show ?case by (cases p) (force simp: image_iff dest: update_entries)
qed

lemma update_values_all:
  "list_all P (map snd us) \<Longrightarrow> P d \<Longrightarrow> list_all P (map snd (AList.update k d us))"
  by (induction us) auto

lemma delete_values_distinct: "distinct (map snd us) \<Longrightarrow> distinct (map snd (AList.delete k us))"
  by (simp add: AList.delete_eq distinct_map_filter)

lemma delete_values_all: "list_all P (map snd us) \<Longrightarrow> list_all P (map snd (AList.delete k us))"
  by (induction us) auto

lemma broadcastMsg_joins:
  "broadcastMsg server UserJoinsServer conn [n] =
     Inr (map (\<lambda>c. (c, n @ '' joined the chat'' @ newline))
            (filter (\<lambda>c. c \<noteq> conn) (map fst (users server))))"
  by (simp add: broadcastMsg_def broadcastText_def component_def Fprintln_def)

lemma broadcastMsg_leaves:
  "broadcastMsg server UserLeavesServer conn [n] =
     Inr (map (\<lambda>c. (c, n @ '' left the chat'' @ newline))
            (filter (\<lambda>c. c \<noteq> conn) (map fst (users server))))"
  by (simp add: broadcastMsg_def broadcastText_def component_def Fprintln_def
      UserLeavesServer_def UserJoinsServer_def)

lemma broadcastMsg_changes:
  "broadcastMsg server UserChangesNickname conn [old, n] =
     Inr (map (\<lambda>c. (c, old @ '' changed nickname to '' @ n @ newline))
            (filter (\<lambda>c. c \<noteq> conn) (map fst (users server))))"
  by (simp add: broadcastMsg_def broadcastText_def component_def Fprintln_def
      UserLeavesServer_def UserJoinsServer_def UserChangesNickname_def)

lemma broadcastMsg_excludes:
  "broadcastMsg server bt conn comps = Inr ws \<Longrightarrow> conn \<notin> fst ` set ws"
  by (auto simp: broadcastMsg_def Fprintln_def split: sum.splits option.splits)

section \<open>The handlers, and the invariant along a run\<close>

lemma handleNicknameCommand_invalid:
  "\<not> fst (validateNickname d) \<Longrightarrow>
   handleNicknameCommand server conn d = Inr (server, [(conn, snd (validateNickname d) @ newline)])"
  by (simp add: handleNicknameCommand_def Fprintln_def case_prod_beta)

lemma handleNicknameCommand_held:
  assumes "fst (validateNickname d)" and "distinct (map fst (users server))"
    and "distinct (map snd (users server))" and "d \<in> snd ` set (users server)"
  shows "handleNicknameCommand server conn d =
     Inr (server, [(conn, if map_of (users server) conn = Some d
                          then ''You're already registered as '' @ d @ newline
                          else d @ '' already registered'' @ newline)])"
  using assms nicknameScan_Some[of "users server" d conn]
  by (simp add: handleNicknameCommand_def case_prod_beta)

lemma handleNicknameCommand_free:
  assumes "fst (validateNickname d)" and "d \<notin> snd ` set (users server)"
  shows "handleNicknameCommand server conn d =
     Inr (server\<lparr>users := AList.update conn d (users server)\<rparr>,
          (conn, case map_of (users server) conn of
                   Some old \<Rightarrow> ''You changed your nickname from '' @ old @ '' to '' @ d @ newline
                 | None \<Rightarrow> ''Nickname registered as '' @ d @ newline)
            # map (\<lambda>c. (c, case map_of (users server) conn of
                              Some old \<Rightarrow> old @ '' changed nickname to '' @ d @ newline
                            | None \<Rightarrow> d @ '' joined the chat'' @ newline))
                (filter (\<lambda>c. c \<noteq> conn) (map fst (users server))))"
proof -
  have "nicknameScan (users server) conn d = None"
    using assms(2) by (simp add: nicknameScan_None)
  then show ?thesis
    using assms(1)
    by (simp add: handleNicknameCommand_def broadcastMsg_joins broadcastMsg_changes
        case_prod_beta split: option.splits)
qed

lemma handleNicknameCommand_users:
  "handleNicknameCommand server conn d = Inr (server', ws) \<Longrightarrow>
   server' = server \<or>
   (fst (validateNickname d) \<and> d \<notin> snd ` set (users server)
    \<and> server' = server\<lparr>users := AList.update conn d (users server)\<rparr>)"
proof (cases "fst (validateNickname d)")
  case False
  assume "handleNicknameCommand server conn d = Inr (server', ws)"
  with False show ?thesis by (simp add: handleNicknameCommand_invalid)
next
  case True
  assume h: "handleNicknameCommand server conn d = Inr (server', ws)"
  show ?thesis
  proof (cases "d \<in> snd ` set (users server)")
    case False
    with True h show ?thesis by (simp add: handleNicknameCommand_free)
  next
    case True
    then have "nicknameScan (users server) conn d \<noteq> None" by (simp add: nicknameScan_None)
    with h \<open>fst (validateNickname d)\<close> show ?thesis
      by (auto simp: handleNicknameCommand_def case_prod_beta)
  qed
qed

lemma handleNicknameCommand_total:
  "\<exists>server' ws. handleNicknameCommand server conn d = Inr (server', ws)"
  by (auto simp: handleNicknameCommand_def broadcastMsg_joins broadcastMsg_changes
      case_prod_beta split: option.splits)

lemma registryInv_update:
  assumes "registryInv server" and "nicknameRules d" and "d \<notin> snd ` set (users server)"
  shows "registryInv (server\<lparr>users := AList.update conn d (users server)\<rparr>)"
  using assms
  by (simp add: registryInv_def distinct_update update_values_distinct update_values_all)

lemma registryInv_delete:
  "registryInv server \<Longrightarrow> registryInv (server\<lparr>users := AList.delete conn (users server)\<rparr>)"
  by (simp add: registryInv_def distinct_delete delete_values_distinct delete_values_all)

lemma handleNicknameCommand_inv:
  assumes "registryInv server" and "CHR '' '' \<notin> set d"
    and "handleNicknameCommand server conn d = Inr (server', ws)"
  shows "registryInv server'"
  using handleNicknameCommand_users[OF assms(3)] assms(1,2)
  by (auto simp: validateNickname_no_space registryInv_update)

lemma handleUserCommands_total:
  "\<exists>server' ws. handleUserCommands server cmd conn = Inr (server', ws)"
  using handleNicknameCommand_total by (auto simp: handleUserCommands_def Let_def)

lemma handleUserCommands_inv:
  assumes "registryInv server" and "handleUserCommands server cmd conn = Inr (server', ws)"
  shows "registryInv server'"
proof -
  let ?args = "SplitN cmd (CHR '' '') 3"
  have "2 \<le> length ?args \<Longrightarrow> CHR '' '' \<notin> set (?args ! 1)"
    using genSplit3_snd_no_sep[of "CHR '' ''" cmd] by (simp add: SplitN_def)
  then show ?thesis
    using assms handleNicknameCommand_inv[of server "?args ! 1" conn server' ws]
    by (auto simp: handleUserCommands_def Let_def split: if_splits)
qed

lemma sessionEnd_eq:
  "sessionEnd server conn err =
     Inr (server\<lparr>users := AList.delete conn (users server)\<rparr>,
          if err then []
          else map (\<lambda>c. (c, usersAt server conn @ '' left the chat'' @ newline))
                 (filter (\<lambda>c. c \<noteq> conn) (map fst (users server))))"
  by (simp add: sessionEnd_def broadcastMsg_leaves)

text \<open>
  A clean close by a connection that never registered: the nickname read from the map
  is the empty string, and the line \<open> left the chat\<close> goes to the registered
  connections.
\<close>

lemma sessionEnd_unregistered_clean_close:
  "sessionEnd \<lparr>users = [(2::nat, ''bob'')]\<rparr> 1 False
     = Inr (\<lparr>users = [(2, ''bob'')]\<rparr>, [(2, '' left the chat'' @ newline)])"
  by code_simp

lemma step_total: "\<exists>server' ws. step server e = Inr (server', ws)"
  by (cases e) (simp_all add: scanLine_def handleUserCommands_total sessionEnd_eq)

lemma step_inv: "registryInv server \<Longrightarrow> step server e = Inr (server', ws) \<Longrightarrow> registryInv server'"
  by (cases e) (auto simp: scanLine_def sessionEnd_eq registryInv_delete dest: handleUserCommands_inv)

lemma run_total: "\<exists>server' ws. run server es = Inr (server', ws)"
proof (induction es arbitrary: server)
  case Nil
  then show ?case by simp
next
  case (Cons e es)
  obtain s1 w1 where 1: "step server e = Inr (s1, w1)" using step_total by blast
  obtain s2 w2 where 2: "run s1 es = Inr (s2, w2)" using Cons.IH by blast
  from 1 2 show ?case by simp
qed

lemma run_inv: "registryInv server \<Longrightarrow> run server es = Inr (server', ws) \<Longrightarrow> registryInv server'"
proof (induction es arbitrary: server ws)
  case Nil
  then show ?case by simp
next
  case (Cons e es)
  from Cons.prems(2) obtain s1 w1 w2 where 1: "step server e = Inr (s1, w1)"
    and 2: "run s1 es = Inr (server', w2)"
    by (auto split: sum.splits)
  from step_inv[OF Cons.prems(1) 1] have "registryInv s1" .
  from Cons.IH[OF this 2] show ?case .
qed

lemma registryInv_main: "registryInv main_server"
  by (simp add: registryInv_def main_server_def)

lemma registryInv_lookup:
  "registryInv server \<Longrightarrow> map_of (users server) c = Some n \<Longrightarrow> nicknameRules n"
  by (auto simp: registryInv_def list_all_iff dest!: map_of_SomeD)

lemma registryInv_unique:
  assumes "registryInv server" and "map_of (users server) c1 = Some n"
    and "map_of (users server) c2 = Some n"
  shows "c1 = c2"
proof -
  from assms have "(c1, n) \<in> set (users server)" "(c2, n) \<in> set (users server)"
    by (auto dest: map_of_SomeD)
  moreover from assms(1) have "distinct (map snd (users server))" by (simp add: registryInv_def)
  ultimately show ?thesis
    by (metis distinct_map inj_on_def prod.inject snd_conv)
qed

lemma handleUserCommands_MSG:
  assumes "CHR '' '' \<notin> set recipients"
  shows "handleUserCommands server (''/MSG '' @ recipients @ '' '' @ message) conn
           = Inr (server, handleMessageCommand server conn recipients message)"
  unfolding handleUserCommands_def Let_def SplitN_MSG[OF assms]
  by (simp add: NICK_def LIST_def MSG_def)

section \<open>The claims\<close>

text \<open>
  C1, as the code has it.  When the session of a connection ends, \<open>sessionEnd\<close> always
  returns, and the registry afterwards is the one before without the entry of the
  connection, on a clean close as on a read error.  On a read error nothing is written
  to anybody: there is no departure broadcast.  On a clean close by a connection that
  holds the nickname \<open>n\<close>, the line \<open>n left the chat\<close> is written to every other
  registered connection and to nobody else, once each when the registry is a map.
\<close>

theorem sessionEnd_effect:
  "\<exists>server' ws.
     sessionEnd server conn err = Inr (server', ws)
     \<and> map_of (users server') = (map_of (users server))(conn := None)
     \<and> (err \<longrightarrow> ws = [])
     \<and> (\<not> err \<longrightarrow>
          (\<forall>n. map_of (users server) conn = Some n \<longrightarrow>
             set ws = {(c, n @ '' left the chat'' @ newline) | c.
                         c \<in> fst ` set (users server) \<and> c \<noteq> conn}
             \<and> (distinct (map fst (users server)) \<longrightarrow> distinct ws)))"
  by (auto simp: sessionEnd_eq AList.delete_conv' usersAt_def distinct_map inj_on_def
      intro: distinct_filter)

theorem sessionEnd_effect_witness:
  "(\<exists>ws. sessionEnd \<lparr>users = [(1::nat, ''alice''), (2, ''bob''), (3, ''carol'')]\<rparr> 1 False
            = Inr (\<lparr>users = [(2, ''bob''), (3, ''carol'')]\<rparr>, ws)
         \<and> (2, ''alice'' @ '' left the chat'' @ newline) \<in> set ws
         \<and> (3, ''alice'' @ '' left the chat'' @ newline) \<in> set ws
         \<and> (1, ''alice'' @ '' left the chat'' @ newline) \<notin> set ws
         \<and> distinct ws)
   \<and> sessionEnd \<lparr>users = [(1::nat, ''alice''), (2, ''bob''), (3, ''carol'')]\<rparr> 1 True
        = Inr (\<lparr>users = [(2, ''bob''), (3, ''carol'')]\<rparr>, [])"
proof -
  let ?S = "\<lparr>users = [(1::nat, ''alice''), (2, ''bob''), (3, ''carol'')]\<rparr>"
  let ?l = "''alice'' @ '' left the chat'' @ newline"
  have held: "map_of (users ?S) 1 = Some ''alice''" and dist: "distinct (map fst (users ?S))"
    by simp_all
  have del: "\<And>s' ws err. sessionEnd ?S 1 err = Inr (s', ws)
               \<Longrightarrow> s' = \<lparr>users = [(2, ''bob''), (3, ''carol'')]\<rparr>"
    by (simp add: sessionEnd_eq)
  have others: "\<And>l::string. (2, l) \<in> {(c, l) | c. c \<in> fst ` set (users ?S) \<and> c \<noteq> 1}"
    "\<And>l::string. (3, l) \<in> {(c, l) | c. c \<in> fst ` set (users ?S) \<and> c \<noteq> 1}"
    "\<And>l::string. (1, l) \<notin> {(c, l) | c. c \<in> fst ` set (users ?S) \<and> c \<noteq> 1}"
    by simp_all
  obtain s1 ws1 where e1: "sessionEnd ?S 1 False = Inr (s1, ws1)"
    and f1: "\<And>n. map_of (users ?S) 1 = Some n \<Longrightarrow>
               set ws1 = {(c, n @ '' left the chat'' @ newline) | c.
                            c \<in> fst ` set (users ?S) \<and> c \<noteq> 1}
               \<and> (distinct (map fst (users ?S)) \<longrightarrow> distinct ws1)"
    using sessionEnd_effect[of ?S 1 False] by blast
  from f1[OF held] dist
  have s1: "set ws1 = {(c, ?l) | c. c \<in> fst ` set (users ?S) \<and> c \<noteq> 1}"
    and d1: "distinct ws1"
    by blast+
  have "(2, ?l) \<in> set ws1" "(3, ?l) \<in> set ws1" "(1, ?l) \<notin> set ws1"
    unfolding s1 by (rule others)+
  with e1 del[OF e1] d1
  have clean: "\<exists>ws. sessionEnd ?S 1 False = Inr (\<lparr>users = [(2, ''bob''), (3, ''carol'')]\<rparr>, ws)
         \<and> (2, ?l) \<in> set ws \<and> (3, ?l) \<in> set ws \<and> (1, ?l) \<notin> set ws \<and> distinct ws"
    by blast
  obtain s2 ws2 where e2: "sessionEnd ?S 1 True = Inr (s2, ws2)" and f2: "ws2 = []"
    using sessionEnd_effect[of ?S 1 True] by blast
  with del[OF e2]
  have "sessionEnd ?S 1 True = Inr (\<lparr>users = [(2, ''bob''), (3, ''carol'')]\<rparr>, [])"
    by simp
  with clean show ?thesis by blast
qed

text \<open>
  C1 as it is stated fails: connection 1 holds the nickname \<open>alice\<close>, connection 2 is
  registered too, and the session of connection 1 ends with a read error.  The entry
  is removed, and nothing at all is written to connection 2.
\<close>

theorem sessionEnd_read_error_counterexample:
  "map_of (users \<lparr>users = [(1::nat, ''alice''), (2, ''bob'')]\<rparr>) 1 = Some ''alice''
   \<and> sessionEnd \<lparr>users = [(1::nat, ''alice''), (2, ''bob'')]\<rparr> 1 True
       = Inr (\<lparr>users = [(2, ''bob'')]\<rparr>, [])"
  by code_simp

text \<open>
  C2, as the code has it.  \<open>validateNickname\<close> answers ok exactly when its argument,
  with the space characters (U+0020, and no other blank) at both ends removed, has
  length between 1 and 10, starts with a letter and consists of letters, digits and
  underscores only.  The second equivalence is the same fact with the tests the
  function itself runs (\<^verbatim>\<open>unicode.IsLetter\<close> on the first byte, the pattern on the whole
  string): under the pattern the first byte is ASCII, so the two coincide.
\<close>

theorem validateNickname_ok_iff:
  "(fst (validateNickname n) \<longleftrightarrow> nicknameRules (Trim n '' ''))
   \<and> (fst (validateNickname n) \<longleftrightarrow>
        (let t = Trim n '' ''
         in 1 \<le> length t \<and> length t \<le> 10 \<and> IsLetter (rune (t ! 0))
            \<and> validNicknamePattern_MatchString t))"
  by (auto simp: validateNickname_rules[symmetric] validateNickname_fst Let_def
      validNicknamePattern_MatchString_def)

theorem validateNickname_ok_iff_witness:
  "fst (validateNickname '' alice_1 '') \<and> \<not> fst (validateNickname ''1alice'')"
proof -
  have "nicknameRules (Trim '' alice_1 '' '' '')" by code_simp
  moreover have "\<not> nicknameRules (Trim ''1alice'' '' '')" by code_simp
  ultimately show ?thesis
    using validateNickname_ok_iff[of "'' alice_1 ''"] validateNickname_ok_iff[of "''1alice''"]
    by simp
qed

text \<open>
  C2 with "whitespace" read as the specification writes it fails: a tab followed by
  \<open>bob\<close> becomes \<open>bob\<close> when whitespace is trimmed, and \<open>bob\<close> obeys the three rules;
  the function keeps the tab and rejects the candidate.
\<close>

theorem validateNickname_whitespace_counterexample:
  "\<not> (fst (validateNickname (CHR 0x09 # ''bob''))
        \<longleftrightarrow> nicknameRules (spec_trimWhitespace (CHR 0x09 # ''bob'')))"
  by code_simp

text \<open>
  C3.  In a registry that is a map with no nickname held twice, a \<^verbatim>\<open>/NICK\<close> whose
  candidate passes validation is decided as follows, and the handler always returns.
  If some entry holds the desired name, the registry is unchanged and the one line
  written goes to the requester: \<open>You're already registered as\<close> the name when the entry
  is the requester's own, the name followed by \<open>already registered\<close> otherwise.  If no
  entry holds it, the registry becomes the old one with the requester mapped to the
  desired name; the requester is told \<open>You changed your nickname from\<close> old \<open>to\<close> new
  when it had an entry and \<open>Nickname registered as\<close> the name when it had none, and the
  others are told of the change or of the arrival.  Scan and update are one
  transition of the model, as they are one critical section of the handler.
\<close>

theorem handleNicknameCommand_decision:
  assumes "fst (validateNickname desired)"
    and "distinct (map fst (users server))" and "distinct (map snd (users server))"
  shows "handleNicknameCommand server conn desired =
     (if \<exists>c. map_of (users server) c = Some desired
      then Inr (server,
             [(conn, if map_of (users server) conn = Some desired
                     then ''You're already registered as '' @ desired @ newline
                     else desired @ '' already registered'' @ newline)])
      else Inr (server\<lparr>users := AList.update conn desired (users server)\<rparr>,
             (case map_of (users server) conn of
                Some old \<Rightarrow>
                  (conn, ''You changed your nickname from '' @ old @ '' to '' @ desired @ newline)
                    # map (\<lambda>c. (c, old @ '' changed nickname to '' @ desired @ newline))
                        (filter (\<lambda>c. c \<noteq> conn) (map fst (users server)))
              | None \<Rightarrow>
                  (conn, ''Nickname registered as '' @ desired @ newline)
                    # map (\<lambda>c. (c, desired @ '' joined the chat'' @ newline))
                        (filter (\<lambda>c. c \<noteq> conn) (map fst (users server))))))
   \<and> map_of (AList.update conn desired (users server)) = (map_of (users server))(conn \<mapsto> desired)"
proof -
  have ex: "(\<exists>c. map_of (users server) c = Some desired) \<longleftrightarrow> desired \<in> snd ` set (users server)"
    using assms(2) by (force simp: image_iff dest: map_of_SomeD)
  show ?thesis
  proof (cases "desired \<in> snd ` set (users server)")
    case True
    with ex show ?thesis
      using handleNicknameCommand_held[OF assms True, of conn] by (simp add: AList.update_conv')
  next
    case False
    with ex show ?thesis
      using handleNicknameCommand_free[OF assms(1) False, of conn]
      by (simp add: AList.update_conv' split: option.splits)
  qed
qed

theorem handleNicknameCommand_decision_witness:
  "handleNicknameCommand \<lparr>users = [(1::nat, ''alice''), (2, ''bob'')]\<rparr> 2 ''carol''
     = Inr (\<lparr>users = [(1, ''alice''), (2, ''carol'')]\<rparr>,
            [(2, ''You changed your nickname from bob to carol'' @ newline),
             (1, ''bob changed nickname to carol'' @ newline)])
   \<and> handleNicknameCommand \<lparr>users = [(1::nat, ''alice''), (2, ''bob'')]\<rparr> 2 ''alice''
     = Inr (\<lparr>users = [(1, ''alice''), (2, ''bob'')]\<rparr>, [(2, ''alice already registered'' @ newline)])"
proof -
  have 1: "fst (validateNickname ''carol'')" "fst (validateNickname ''alice'')" by code_simp+
  have 2: "distinct (map fst (users \<lparr>users = [(1::nat, ''alice''), (2, ''bob'')]\<rparr>))"
    "distinct (map snd (users \<lparr>users = [(1::nat, ''alice''), (2, ''bob'')]\<rparr>))" by simp_all
  have 3: "\<not> (\<exists>c. map_of [(1::nat, ''alice''), (2, ''bob'')] c = Some ''carol'')" by auto
  have 4: "\<exists>c. map_of [(1::nat, ''alice''), (2, ''bob'')] c = Some ''alice''"
    by (rule exI[of _ 1]) simp
  show ?thesis
    using handleNicknameCommand_decision[OF 1(1) 2, of 2]
      handleNicknameCommand_decision[OF 1(2) 2, of 2] 3 4
    by simp
qed

text \<open>
  C4.  Every run of the server from the empty registry (lines of any content, among
  them every \<^verbatim>\<open>/NICK\<close>, and session ends of either kind, in any interleaving) returns,
  and in the registry it reaches no two distinct connections hold the same nickname:
  the nicknames stored are pairwise distinct.
\<close>

theorem nickname_uniqueness:
  "\<exists>server out.
     run main_server evs = Inr (server, out)
     \<and> (\<forall>c1 c2 n. map_of (users server) c1 = Some n \<and> map_of (users server) c2 = Some n
           \<longrightarrow> c1 = c2)
     \<and> distinct (map snd (users server))"
proof -
  obtain server out where r: "run (main_server :: 'a ChatServer) evs = Inr (server, out)"
    using run_total by blast
  from run_inv[OF registryInv_main r] have inv: "registryInv server" .
  then have "distinct (map snd (users server))" by (simp add: registryInv_def)
  with r inv show ?thesis by (blast intro: registryInv_unique)
qed

theorem nickname_uniqueness_witness:
  "\<exists>out. run (main_server :: nat ChatServer)
            [Line 1 ''/NICK alice'', Line 2 ''/NICK alice'', Line 2 ''/NICK bob'',
             Stop 1 False, Line 3 ''/NICK alice'']
          = Inr (\<lparr>users = [(2, ''bob''), (3, ''alice'')]\<rparr>, out)
        \<and> distinct (map snd [(2::nat, ''bob''), (3, ''alice'')])"
proof -
  have "case run (main_server :: nat ChatServer)
            [Line 1 ''/NICK alice'', Line 2 ''/NICK alice'', Line 2 ''/NICK bob'',
             Stop 1 False, Line 3 ''/NICK alice'']
        of Inl p \<Rightarrow> False
         | Inr (server, out) \<Rightarrow> server = \<lparr>users = [(2, ''bob''), (3, ''alice'')]\<rparr>"
    by code_simp
  then show ?thesis
    using nickname_uniqueness[of "[Line (1::nat) ''/NICK alice'', Line 2 ''/NICK alice'',
             Line 2 ''/NICK bob'', Stop 1 False, Line 3 ''/NICK alice'']"]
    by (auto split: sum.splits)
qed

text \<open>
  C5.  No fan-out writes to the connection that triggers it: not the wildcard chat,
  not the chat to named recipients (whatever names the list holds, the sender's own
  among them), not \<open>broadcastMsg\<close> of any type, hence not the chat of a registered
  sender as a whole, not what \<open>handleNicknameCommand\<close> writes after its reply to the
  requester, and not the departure broadcast at the end of a session.
\<close>

theorem sender_excluded:
  "conn \<notin> fst ` set (sendToAllUsers server conn senderNickname message)
   \<and> conn \<notin> fst ` set (sendToSpecificUsers server conn senderNickname recipients message)
   \<and> (\<forall>ws. broadcastMsg server broadcastType conn components = Inr ws \<longrightarrow> conn \<notin> fst ` set ws)
   \<and> (usersAt server conn \<noteq> [] \<longrightarrow>
        conn \<notin> fst ` set (handleMessageCommand server conn rs message))
   \<and> (\<forall>server' w ws. handleNicknameCommand server conn d = Inr (server', w # ws) \<longrightarrow>
        conn \<notin> fst ` set ws)
   \<and> (\<forall>server' ws. sessionEnd server conn err = Inr (server', ws) \<longrightarrow> conn \<notin> fst ` set ws)"
proof -
  have 1: "\<And>s rs m. conn \<notin> fst ` set (sendToAllUsers server conn s m)"
    by (auto simp: sendToAllUsers_def)
  have 2: "\<And>s rs m. conn \<notin> fst ` set (sendToSpecificUsers server conn s rs m)"
    by (auto simp: sendToSpecificUsers_def)
  have 3: "\<And>bt cs ws. broadcastMsg server bt conn cs = Inr ws \<Longrightarrow> conn \<notin> fst ` set ws"
    by (rule broadcastMsg_excludes)
  have 4: "usersAt server conn \<noteq> [] \<Longrightarrow> conn \<notin> fst ` set (handleMessageCommand server conn rs message)"
    using 1 2 by (simp add: handleMessageCommand_def Let_def)
  have 5: "\<And>server' w ws. handleNicknameCommand server conn d = Inr (server', w # ws) \<Longrightarrow>
        conn \<notin> fst ` set ws"
    using 3 by (auto simp: handleNicknameCommand_def case_prod_beta split: if_splits option.splits sum.splits)
  have 6: "\<And>server' ws. sessionEnd server conn err = Inr (server', ws) \<Longrightarrow> conn \<notin> fst ` set ws"
    by (auto simp: sessionEnd_eq split: if_splits)
  from 1 2 3 4 5 6 show ?thesis by blast
qed

theorem sender_excluded_witness:
  "sendToSpecificUsers \<lparr>users = [(1::nat, ''alice''), (2, ''bob'')]\<rparr> 1 ''alice''
       [''alice'', ''bob''] ''hi''
     = [(2, ''alice said: hi'' @ newline)]
   \<and> 1 \<notin> fst ` set (handleMessageCommand \<lparr>users = [(1::nat, ''alice''), (2, ''bob'')]\<rparr> 1
                         ''alice,bob'' ''hi'')"
proof -
  have 1: "sendToSpecificUsers \<lparr>users = [(1::nat, ''alice''), (2, ''bob'')]\<rparr> 1 ''alice''
       [''alice'', ''bob''] ''hi'' = [(2, ''alice said: hi'' @ newline)]" by code_simp
  have 2: "usersAt \<lparr>users = [(1::nat, ''alice''), (2, ''bob'')]\<rparr> 1 \<noteq> []" by code_simp
  show ?thesis
    using sender_excluded[of 1 "\<lparr>users = [(1::nat, ''alice''), (2, ''bob'')]\<rparr>" _ _ _ _ _
        "''alice,bob''" "''hi''"] 1 2
    by blast
qed

text \<open>
  C6, as the code has it.  When the candidate of a \<^verbatim>\<open>/NICK\<close> fails validation, the
  handler returns, leaves the registry alone and writes one line, to the requesting
  connection: one of the three reasons, each of which begins with the word
  \<open>Nickname\<close>.  It is the length reason when the trimmed candidate is not 1 to 10 bytes
  long; otherwise the first-letter reason when the candidate starts with an ASCII
  character that is no letter; otherwise, for a candidate that starts with an ASCII
  letter, the character-class reason.  (For a candidate that starts with a byte beyond
  ASCII the theorem only says that the reply is one of the three.)
\<close>

theorem handleNicknameCommand_invalid_reply:
  assumes "\<not> fst (validateNickname d)"
  shows "\<exists>reason.
     handleNicknameCommand server conn d = Inr (server, [(conn, reason @ newline)])
     \<and> reason \<in> {''Nickname must be between 1 and 10 characters'',
                  ''Nickname must start with a letter'',
                  ''Nickname can contain only letters, numbers, and underscores''}
     \<and> (let t = Trim d '' ''
        in (\<not> (1 \<le> length t \<and> length t \<le> 10)
              \<longrightarrow> reason = ''Nickname must be between 1 and 10 characters'')
         \<and> (1 \<le> length t \<and> length t \<le> 10 \<and> rune (t ! 0) < 128 \<and> \<not> isAsciiLetter (t ! 0)
              \<longrightarrow> reason = ''Nickname must start with a letter'')
         \<and> (1 \<le> length t \<and> length t \<le> 10 \<and> isAsciiLetter (t ! 0)
              \<and> \<not> list_all nicknameClass t
              \<longrightarrow> reason = ''Nickname can contain only letters, numbers, and underscores''))"
proof -
  have letter: "\<And>c. isAsciiLetter c \<Longrightarrow> IsLetter (rune c)"
    by (auto simp: isAsciiLetter_def IsLetter_def Let_def)
  have nonletter: "\<And>c. rune c < 128 \<Longrightarrow> \<not> isAsciiLetter c \<Longrightarrow> \<not> IsLetter (rune c)"
    by (auto simp: isAsciiLetter_def IsLetter_def Let_def)
  show ?thesis
    unfolding handleNicknameCommand_invalid[OF assms]
    using assms letter nonletter
    by (auto simp: validateNickname_def Let_def validNicknamePattern_MatchString_def Suc_le_eq
        split: if_splits)
qed

theorem handleNicknameCommand_invalid_reply_witness:
  "handleNicknameCommand \<lparr>users = [(2::nat, ''bob'')]\<rparr> 1 ''9lives''
     = Inr (\<lparr>users = [(2, ''bob'')]\<rparr>, [(1, ''Nickname must start with a letter'' @ newline)])"
proof -
  have 1: "\<not> fst (validateNickname ''9lives'')" by code_simp
  have 2: "Trim ''9lives'' '' '' = ''9lives''" by code_simp
  have 3: "rune (CHR ''9'') < 128 \<and> \<not> isAsciiLetter (CHR ''9'')" by code_simp
  show ?thesis
    using handleNicknameCommand_invalid_reply[OF 1, of "\<lparr>users = [(2::nat, ''bob'')]\<rparr>" 1] 2 3
    by (auto simp: Let_def)
qed

text \<open>
  C6 as it is stated fails: for a candidate of eleven letters the line written is
  \<open>Nickname must be between 1 and 10 characters\<close>, which is not the string
  \<open>must be between 1 and 10 characters\<close> of the claim.
\<close>

theorem handleNicknameCommand_reason_counterexample:
  "\<not> fst (validateNickname ''abcdefghijk'')
   \<and> handleNicknameCommand \<lparr>users = []\<rparr> (1::nat) ''abcdefghijk''
       = Inr (\<lparr>users = []\<rparr>, [(1, ''Nickname must be between 1 and 10 characters'' @ newline)])
   \<and> ''Nickname must be between 1 and 10 characters'' \<noteq> ''must be between 1 and 10 characters''"
  by code_simp

text \<open>
  C7.  In every state the server can reach, a connection that holds the nickname \<open>n\<close>
  and sends the line \<^verbatim>\<open>/NICK n\<close> gets the line \<open>You're already registered as n\<close>; the
  server state is the same afterwards, and that line, to the requester, is all that is
  written.
\<close>

theorem renick_same_name:
  assumes "run main_server evs = Inr (server, out)" and "map_of (users server) conn = Some n"
  shows "scanLine server conn (''/NICK '' @ n)
           = Inr (server, [(conn, ''You're already registered as '' @ n @ newline)])
         \<and> handleNicknameCommand server conn n
           = Inr (server, [(conn, ''You're already registered as '' @ n @ newline)])"
proof -
  from run_inv[OF registryInv_main assms(1)] have inv: "registryInv server" .
  from registryInv_lookup[OF inv assms(2)] have rules: "nicknameRules n" .
  then have nsp: "CHR '' '' \<notin> set n" and ne: "n \<noteq> []" and ok: "fst (validateNickname n)"
    by (simp_all add: nicknameRules_no_space nicknameRules_nonempty validateNickname_stored)
  from assms(2) have held: "n \<in> snd ` set (users server)"
    by (force simp: image_iff dest: map_of_SomeD)
  from inv have d: "distinct (map fst (users server))" "distinct (map snd (users server))"
    by (simp_all add: registryInv_def)
  have h: "handleNicknameCommand server conn n
           = Inr (server, [(conn, ''You're already registered as '' @ n @ newline)])"
    using handleNicknameCommand_held[OF ok d held, of conn] assms(2) by simp
  have "last (''/NICK '' @ n) = last n" using ne by simp
  moreover have "last n \<in> set n" using ne by simp
  ultimately have "last (''/NICK '' @ n) \<noteq> CHR '' ''" using nsp by metis
  then have t: "Trim (''/NICK '' @ n) '' '' = ''/NICK '' @ n"
    by (intro Trim_ends) simp_all
  have "scanLine server conn (''/NICK '' @ n) = handleNicknameCommand server conn n"
    unfolding scanLine_def Let_def t handleUserCommands_def SplitN_NICK[OF nsp]
    by (simp add: NICK_def LIST_def)
  with h show ?thesis by simp
qed

theorem renick_same_name_witness:
  "scanLine \<lparr>users = [(1::nat, ''alice''), (2, ''bob'')]\<rparr> 1 ''/NICK alice''
     = Inr (\<lparr>users = [(1, ''alice''), (2, ''bob'')]\<rparr>,
            [(1, ''You're already registered as alice'' @ newline)])"
proof -
  have "case run (main_server :: nat ChatServer) [Line 1 ''/NICK alice'', Line 2 ''/NICK bob'']
        of Inl p \<Rightarrow> False
         | Inr (server, out) \<Rightarrow> server = \<lparr>users = [(1, ''alice''), (2, ''bob'')]\<rparr>"
    by code_simp
  then have 1: "\<exists>out. run (main_server :: nat ChatServer) [Line 1 ''/NICK alice'', Line 2 ''/NICK bob'']
               = Inr (\<lparr>users = [(1, ''alice''), (2, ''bob'')]\<rparr>, out)"
    by (auto split: sum.splits)
  have 2: "map_of (users \<lparr>users = [(1::nat, ''alice''), (2, ''bob'')]\<rparr>) 1 = Some ''alice''" by simp
  from 1 obtain out where "run (main_server :: nat ChatServer) [Line 1 ''/NICK alice'', Line 2 ''/NICK bob'']
               = Inr (\<lparr>users = [(1, ''alice''), (2, ''bob'')]\<rparr>, out)" by blast
  from renick_same_name[OF this 2] show ?thesis by simp
qed

text \<open>
  C8.  A \<^verbatim>\<open>/MSG\<close> command (recipients without a space, then the message) from a
  connection without a registry entry leaves the server state as it is and writes one
  line, to the sender: \<open>You must register a nickname before you can send a message\<close>.
\<close>

theorem unregistered_msg:
  assumes "map_of (users server) conn = None" and "CHR '' '' \<notin> set recipients"
  shows "handleUserCommands server (''/MSG '' @ recipients @ '' '' @ message) conn
           = Inr (server, [(conn, ''You must register a nickname before you can send a message''
                                    @ newline)])"
  unfolding handleUserCommands_MSG[OF assms(2)]
  using assms(1) by (simp add: handleMessageCommand_def usersAt_def Fprintln_def Let_def)

theorem unregistered_msg_witness:
  "handleUserCommands \<lparr>users = [(2::nat, ''bob'')]\<rparr> ''/MSG * hi all'' 1
     = Inr (\<lparr>users = [(2, ''bob'')]\<rparr>,
            [(1, ''You must register a nickname before you can send a message'' @ newline)])"
proof -
  have 1: "map_of (users \<lparr>users = [(2::nat, ''bob'')]\<rparr>) 1 = None" by simp
  have 2: "CHR '' '' \<notin> set ''*''" by simp
  from unregistered_msg[OF 1 2, of "''hi all''"] show ?thesis by simp
qed

text \<open>
  C9.  A \<^verbatim>\<open>/MSG\<close> command of a registered sender with a recipient list other than the
  wildcard leaves the server state as it is; the connections written to are exactly
  the registered connections, other than the sender, whose nickname is one of the names
  of the comma-separated list, and each write is the sender's nickname, \<open>said:\<close> and the
  message.  A name nobody holds adds nothing, and nothing is written to the sender.
\<close>

theorem named_recipients_best_effort:
  assumes "map_of (users server) conn = Some senderNickname" and "senderNickname \<noteq> []"
    and "CHR '' '' \<notin> set recipients" and "recipients \<noteq> ''*''"
  shows "\<exists>ws. handleUserCommands server (''/MSG '' @ recipients @ '' '' @ message) conn
                = Inr (server, ws)
           \<and> set ws = {(c, senderNickname @ '' said: '' @ message @ newline) | c nickname.
                         (c, nickname) \<in> set (users server)
                         \<and> nickname \<in> set (Split recipients (CHR '',''))
                         \<and> c \<noteq> conn}
           \<and> conn \<notin> fst ` set ws"
proof -
  have star: "(length (Split recipients (CHR '','')) = 1
                 \<and> Split recipients (CHR '','') ! 0 = ''*'') = False"
    using assms(4) Split_star[of recipients "CHR '',''" "''*''"] by blast
  have u: "usersAt server conn = senderNickname"
    using assms(1) by (simp add: usersAt_def)
  have "handleUserCommands server (''/MSG '' @ recipients @ '' '' @ message) conn
          = Inr (server, sendToSpecificUsers server conn senderNickname
                           (Split recipients (CHR '','')) message)"
    unfolding handleUserCommands_MSG[OF assms(3)] handleMessageCommand_def Let_def u star
    using assms(2) by simp
  moreover have "set (sendToSpecificUsers server conn senderNickname
                           (Split recipients (CHR '','')) message)
      = {(c, senderNickname @ '' said: '' @ message @ newline) | c nickname.
                         (c, nickname) \<in> set (users server)
                         \<and> nickname \<in> set (Split recipients (CHR '',''))
                         \<and> c \<noteq> conn}"
    by (auto simp: sendToSpecificUsers_def said_def)
  ultimately show ?thesis by auto
qed

theorem named_recipients_best_effort_witness:
  "\<exists>ws. handleUserCommands \<lparr>users = [(1::nat, ''alice''), (2, ''bob'')]\<rparr> ''/MSG bob,carol hi'' 1
           = Inr (\<lparr>users = [(1, ''alice''), (2, ''bob'')]\<rparr>, ws)
        \<and> set ws = {(2, ''alice said: hi'' @ newline)}"
proof -
  have 1: "map_of (users \<lparr>users = [(1::nat, ''alice''), (2, ''bob'')]\<rparr>) 1 = Some ''alice''" by simp
  have 2: "''alice'' \<noteq> []" "CHR '' '' \<notin> set ''bob,carol''" "''bob,carol'' \<noteq> ''*''" by simp_all
  have 3: "Split ''bob,carol'' (CHR '','') = [''bob'', ''carol'']" by code_simp
  from named_recipients_best_effort[OF 1 2, of "''hi''"] show ?thesis
    unfolding 3 by (auto simp: newline_def)
qed

text \<open>
  C10.  Every run from the empty registry returns, and every nickname stored in the
  registry it reaches is non-empty, passes \<open>validateNickname\<close> and obeys the nickname
  rules as it stands.  So the test of \<open>handleMessageCommand\<close> for the empty string is
  true exactly for the connections without an entry, and a registered connection
  always gets its message fanned out.
\<close>

theorem stored_nicknames_valid:
  "\<exists>server out.
     run main_server evs = Inr (server, out)
     \<and> (\<forall>c n. map_of (users server) c = Some n \<longrightarrow>
           n \<noteq> [] \<and> fst (validateNickname n) \<and> nicknameRules n
           \<and> (\<forall>rs m. handleMessageCommand server c rs m =
                 (if length (Split rs (CHR '','')) = 1 \<and> Split rs (CHR '','') ! 0 = ''*''
                  then sendToAllUsers server c n m
                  else sendToSpecificUsers server c n (Split rs (CHR '','')) m)))
     \<and> (\<forall>c. usersAt server c = [] \<longleftrightarrow> map_of (users server) c = None)"
proof -
  obtain server out where r: "run (main_server :: 'a ChatServer) evs = Inr (server, out)"
    using run_total by blast
  from run_inv[OF registryInv_main r] have inv: "registryInv server" .
  have a: "\<And>c n. map_of (users server) c = Some n \<Longrightarrow> nicknameRules n"
    using registryInv_lookup[OF inv] .
  have b: "\<And>c n rs m. map_of (users server) c = Some n \<Longrightarrow>
      handleMessageCommand server c rs m =
                 (if length (Split rs (CHR '','')) = 1 \<and> Split rs (CHR '','') ! 0 = ''*''
                  then sendToAllUsers server c n m
                  else sendToSpecificUsers server c n (Split rs (CHR '','')) m)"
    using a by (auto simp: handleMessageCommand_def usersAt_def Let_def dest: nicknameRules_nonempty)
  have c: "\<And>c. usersAt server c = [] \<longleftrightarrow> map_of (users server) c = None"
    using a by (auto simp: usersAt_def split: option.splits dest: nicknameRules_nonempty)
  from r a b c show ?thesis
    by (intro exI[of _ server] exI[of _ out]) (simp add: nicknameRules_nonempty validateNickname_stored)
qed

theorem stored_nicknames_valid_witness:
  "\<exists>out. run (main_server :: nat ChatServer)
               [Line 1 ''/NICK alice'', Line 2 ''/NICK  bob'', Line 2 ''/NICK b_2'']
          = Inr (\<lparr>users = [(1, ''alice''), (2, ''b_2'')]\<rparr>, out)
        \<and> nicknameRules ''alice'' \<and> nicknameRules ''b_2''
        \<and> usersAt \<lparr>users = [(1::nat, ''alice''), (2, ''b_2'')]\<rparr> 3 = []"
proof -
  let ?evs = "[Line (1::nat) ''/NICK alice'', Line 2 ''/NICK  bob'', Line 2 ''/NICK b_2'']"
  let ?S = "\<lparr>users = [(1::nat, ''alice''), (2, ''b_2'')]\<rparr>"
  have ev: "case run main_server ?evs of Inl p \<Rightarrow> False | Inr (server, out) \<Rightarrow> server = ?S"
    by code_simp
  obtain server out where r: "run main_server ?evs = Inr (server, out)"
    and p: "\<And>c n. map_of (users server) c = Some n \<Longrightarrow> nicknameRules n"
    and q: "\<And>c. usersAt server c = [] \<longleftrightarrow> map_of (users server) c = None"
    using stored_nicknames_valid[of ?evs] by blast
  from ev r have s: "server = ?S" by simp
  have "map_of (users ?S) 1 = Some ''alice''" "map_of (users ?S) 2 = Some ''b_2''"
    "map_of (users ?S) 3 = None" by simp_all
  with p q s have "nicknameRules ''alice''" "nicknameRules ''b_2''" "usersAt ?S 3 = []"
    by blast+
  with r s show ?thesis by blast
qed

end
